theory Spec2Isabelle
  imports Complex_Main
begin

section \<open>The bot runner of botcity\_aux/bot\_runner.py\<close>

text \<open>
  The file holds two classes, \<open>BotRunnerMaestro\<close> and \<open>BotRunnerLocal\<close>. Each is
  constructed with the bot's configuration and has one public method \<open>run\<close>: a retry
  loop around the task function \<open>main\<close>, reporting to the orchestrator (BotCity
  Maestro), to SharePoint, to an SQL log table and, optionally, to Telegram.

  Every function below embeds the method of the same name (a leading underscore dropped,
  and the suffix \<open>_maestro\<close> or \<open>_local\<close> where the two classes differ).
\<close>

subsection \<open>Exceptions, events and the environment\<close>

text \<open>
  A Python exception is its class name and its \<open>str\<close>. The type holds instances of
  \<open>Exception\<close> only, which is what \<open>except Exception\<close> catches.
\<close>

datatype exn = Exn string string


fun str_exn :: "exn \<Rightarrow> string" where
  "str_exn (Exn cls msg) = msg"

datatype level = INFO | ERROR

datatype status = SUCCESS | FAILED

text \<open>
  Every call that leaves the runner is an event of the trace, with its arguments:
  the loguru logger, the task function, psutil and GPUtil, the orchestrator SDK,
  SharePoint, the SQL connector and the Telegram plugin.
\<close>

datatype event =
    Log level string
  | ExecuteBotTask
  | ResourceSnapshot
  | LoggerConfigInit string string
  | FromSysArgs bool
  | GetExecution
  | SdkInit string string string
  | SdkLogin
  | GetCredential string string
  | SharePointApiInit string string string string string
  | TelegramBotInit "string option"
  | ListFolders
  | UploadFiles "string list"
  | SqlConnectorInit string string bool "string option" "string option"
  | SqlConnect
  | SqlExecute string "string list"
  | SqlDisconnect
  | FinishTask string status string
  | MaestroError string exn "string list"
  | SendMessage string string
  | UploadDocument string string string
  | PostArtifact string string string

text \<open>
  The environment answers the calls. The task function's outcome depends on how many
  times it was invoked before; a collaborator's outcome, the string it returns and the
  reading of \<open>time.time()\<close> depend on the number of events so far, so any
  deterministic behaviour of the outside world is an environment.
\<close>

record env =
  task_result :: "nat \<Rightarrow> exn option"
  collab_result :: "nat \<Rightarrow> exn option"
  returns :: "nat \<Rightarrow> string"
  clock :: "nat \<Rightarrow> real"
  logger_log_filename :: string
  logger_log_path :: string
  execution_task_id :: string
  execution_parameters :: string

text \<open>
  The state a runner changes: the trace of events, and its attribute
  \<open>self.start_time\<close>, the only attribute \<open>run\<close> assigns.
\<close>

record state =
  trace :: "event list"
  start_time :: "real option"

type_synonym 'a comp = "state \<Rightarrow> (exn + 'a) \<times> state"

definition return :: "'a \<Rightarrow> 'a comp" where
  "return x s = (Inr x, s)"

definition raise :: "exn \<Rightarrow> 'a comp" where
  "raise e s = (Inl e, s)"

definition bind_comp :: "'a comp \<Rightarrow> ('a \<Rightarrow> 'b comp) \<Rightarrow> 'b comp" where
  "bind_comp m k s = (case m s of (Inl e, s') \<Rightarrow> (Inl e, s') | (Inr x, s') \<Rightarrow> k x s')"

definition seq :: "unit comp \<Rightarrow> 'a comp \<Rightarrow> 'a comp" where
  "seq m k = bind_comp m (\<lambda>_. k)"

fun block :: "unit comp list \<Rightarrow> unit comp" where
  "block [] = return ()"
| "block (m # ms) = seq m (block ms)"

text \<open>\<open>try: m except Exception as e: h e\<close>\<close>

definition try_except :: "'a comp \<Rightarrow> (exn \<Rightarrow> 'a comp) \<Rightarrow> 'a comp" where
  "try_except m h s = (case m s of (Inl e, s') \<Rightarrow> h e s' | (Inr x, s') \<Rightarrow> (Inr x, s'))"

text \<open>
  \<open>try: m finally: f\<close>. The clause \<open>f\<close> runs on every exit of \<open>m\<close>; when
  \<open>f\<close> raises, its exception replaces the outcome of \<open>m\<close>.
\<close>

definition try_finally :: "'a comp \<Rightarrow> unit comp \<Rightarrow> 'a comp" where
  "try_finally m f s =
     (case m s of (r, s') \<Rightarrow>
        (case f s' of (Inl e, s'') \<Rightarrow> (Inl e, s'') | (Inr u, s'') \<Rightarrow> (r, s'')))"

definition emit :: "event \<Rightarrow> state \<Rightarrow> state" where
  "emit ev s = s\<lparr>trace := trace s @ [ev]\<rparr>"

definition logger :: "level \<Rightarrow> string \<Rightarrow> unit comp" where
  "logger lvl msg s = (Inr (), emit (Log lvl msg) s)"

definition call_value :: "env \<Rightarrow> event \<Rightarrow> string comp" where
  "call_value env ev s =
     (case collab_result env (length (trace s)) of
        None \<Rightarrow> (Inr (returns env (length (trace s))), emit ev s)
      | Some e \<Rightarrow> (Inl e, emit ev s))"

definition call :: "env \<Rightarrow> event \<Rightarrow> unit comp" where
  "call env ev = bind_comp (call_value env ev) (\<lambda>_. return ())"

definition time_time :: "env \<Rightarrow> real comp" where
  "time_time env s = (Inr (clock env (length (trace s))), s)"

subsection \<open>Strings of integers\<close>

definition digit_char :: "nat \<Rightarrow> char" where
  "digit_char d = ''0123456789'' ! d"

fun str_nat :: "nat \<Rightarrow> string" where
  "str_nat n = (if n < 10 then [digit_char n] else str_nat (n div 10) @ [digit_char (n mod 10)])"

text \<open>\<open>f"{i}"\<close> for an int.\<close>

definition str_int :: "int \<Rightarrow> string" where
  "str_int i = (if i < 0 then ''-'' @ str_nat (nat (- i)) else str_nat (nat i))"

text \<open>
  \<open>f"{i:02}"\<close> for an int: width 2, filled with zeros after the sign.
\<close>

definition format_02 :: "int \<Rightarrow> string" where
  "format_02 i =
     (let ds = str_nat (nat \<bar>i\<bar>) in
      if i < 0 then ''-'' @ replicate (1 - length ds) (CHR ''0'') @ ds
      else replicate (2 - length ds) (CHR ''0'') @ ds)"

text \<open>\<open>int(x)\<close> of a float truncates towards zero.\<close>

definition py_int :: "real \<Rightarrow> int" where
  "py_int x = (if 0 \<le> x then \<lfloor>x\<rfloor> else \<lceil>x\<rceil>)"

subsection \<open>\<open>_get_execution_time\<close> (the same text in both classes)\<close>

text \<open>
  \<open>format_execution_time t0 end_time\<close> is the method after its test of
  \<open>self.start_time\<close>, with the reading \<open>end_time = time.time()\<close> as an argument.
  Python's \<open>divmod\<close> on
  ints with a positive divisor is \<open>div\<close> and \<open>mod\<close> on \<open>int\<close>. Times are
  reals: the rounding of the float subtraction is not modelled.
\<close>

definition format_execution_time :: "real \<Rightarrow> real \<Rightarrow> string" where
  "format_execution_time t0 end_time =
     (let elapsed_seconds = py_int (end_time - t0);
          days = elapsed_seconds div 86400;
          remainder = elapsed_seconds mod 86400;
          hours = remainder div 3600;
          remainder = remainder mod 3600;
          minutes = remainder div 60;
          seconds = remainder mod 60
      in format_02 days @ '':'' @ format_02 hours @ '':'' @ format_02 minutes @ '':''
         @ format_02 seconds)"

definition get_execution_time :: "env \<Rightarrow> string comp" where
  "get_execution_time env s =
     (case start_time s of
        None \<Rightarrow> (Inr ''Execution time not available'', s)
      | Some t0 \<Rightarrow> bind_comp (time_time env) (\<lambda>end_time.
          return (format_execution_time t0 end_time)) s)"

subsection \<open>The runner object\<close>

text \<open>
  The attributes \<open>__init__\<close> sets and \<open>run\<close> reads. \<open>log_filename\<close> and
  \<open>log_path\<close> are those of \<open>self.logger\<close>; \<open>task_id\<close> is that of
  \<open>self.execution\<close>, which only \<open>BotRunnerMaestro\<close> has.
\<close>

record runner =
  bot_name :: string
  dev :: string
  sector :: string
  stakeholder :: string
  recurrence :: string
  max_retries :: int
  use_telegram :: bool
  telegram_group :: string
  telegram_token :: "string option"
  log_filename :: string
  log_path :: string
  task_id :: string

definition quote :: string where
  "quote = [CHR 0x27]"

definition newline :: string where
  "newline = [CHR 0x0A]"

definition backslash :: string where
  "backslash = [CHR 0x5C]"

definition insert_log_query :: string where
  "insert_log_query =
     ''botcity_aux'' @ backslash @ ''sql'' @ backslash @ ''query'' @ backslash @ ''insert_log.sql''"

subsection \<open>Helpers of \<open>run\<close>\<close>

text \<open>
  \<open>_execute_bot_task\<close> calls the task function \<open>main\<close>, which is not part of the
  file: its outcome at each invocation is the environment's.
\<close>

definition execute_bot_task :: "env \<Rightarrow> unit comp" where
  "execute_bot_task env s =
     (case task_result env (count_list (trace s) ExecuteBotTask) of
        None \<Rightarrow> (Inr (), emit ExecuteBotTask s)
      | Some e \<Rightarrow> (Inl e, emit ExecuteBotTask s))"

text \<open>
  \<open>_get_resource_usage\<close> reads psutil and GPUtil and formats floats; here it is one
  call whose string the environment returns.
\<close>

definition get_resource_usage :: "env \<Rightarrow> string comp" where
  "get_resource_usage env = call_value env ResourceSnapshot"

definition get_credential :: "env \<Rightarrow> string \<Rightarrow> string \<Rightarrow> string comp" where
  "get_credential env label key = call_value env (GetCredential label key)"

definition add_log_file_into_maestro :: "env \<Rightarrow> runner \<Rightarrow> unit comp" where
  "add_log_file_into_maestro env r =
     try_except
       (block
          [call env (PostArtifact (task_id r) (log_filename r) (log_path r)),
           logger INFO (''Log file '' @ quote @ log_filename r @ quote
                     @ '' uploaded successfully to BotCity Maestro.'')])
       (\<lambda>e. block
          [logger ERROR (''Failed to upload log file '' @ quote @ log_filename r @ quote
                      @ '' into BotCity Maestro: '' @ str_exn e),
           raise e])"

text \<open>
  \<open>_insert_database_log_execution\<close>: the tuple \<open>params\<close>, and the method in each
  class. The connector is not released when a call raises.
\<close>

definition log_params :: "runner \<Rightarrow> string \<Rightarrow> string list" where
  "log_params r time = [bot_name r, dev r, sector r, stakeholder r, recurrence r, time]"

definition insert_database_log_execution_maestro :: "env \<Rightarrow> runner \<Rightarrow> unit comp" where
  "insert_database_log_execution_maestro env r =
     bind_comp (get_execution_time env) (\<lambda>time.
     bind_comp (get_credential env ''Your_SQL_Credentials'' ''your_sql_server'') (\<lambda>sql_server.
     bind_comp (get_credential env ''Your_SQL_Credentials'' ''your_sql_database'') (\<lambda>sql_database.
     bind_comp (get_credential env ''Your_SQL_Credentials'' ''your_sql_username'') (\<lambda>sql_username.
     bind_comp (get_credential env ''Your_SQL_Credentials'' ''your_sql_key'') (\<lambda>sql_password.
     block
       [call env (SqlConnectorInit sql_server sql_database False
                    (Some sql_username) (Some sql_password)),
        call env SqlConnect,
        call env (SqlExecute insert_log_query (log_params r time)),
        call env SqlDisconnect])))))"

definition insert_database_log_execution_local :: "env \<Rightarrow> runner \<Rightarrow> unit comp" where
  "insert_database_log_execution_local env r =
     bind_comp (get_execution_time env) (\<lambda>time.
     block
       [call env (SqlConnectorInit ''srv-homologation'' ''your_database'' True None None),
        call env SqlConnect,
        call env (SqlExecute insert_log_query (log_params r time)),
        call env SqlDisconnect])"

text \<open>
  \<open>self.start_time = time.time()\<close>, and the two \<open>if self.use_telegram:\<close> blocks of
  \<open>run\<close>, which have the same text in both classes.
\<close>

definition set_start_time :: "env \<Rightarrow> unit comp" where
  "set_start_time env =
     bind_comp (time_time env) (\<lambda>t s. (Inr (), s\<lparr>start_time := Some t\<rparr>))"

definition telegram_completed :: "env \<Rightarrow> runner \<Rightarrow> unit comp" where
  "telegram_completed env r =
     (if use_telegram r then
        block
          [call env (SendMessage (bot_name r @ '' Bot execution completed.'') (telegram_group r)),
           call env (UploadDocument (log_path r) (telegram_group r) (bot_name r))]
      else return ())"

definition telegram_error :: "env \<Rightarrow> runner \<Rightarrow> exn \<Rightarrow> unit comp" where
  "telegram_error env r e =
     (if use_telegram r then
        block
          [call env (SendMessage
                       (''An error occurred during bot '' @ quote @ bot_name r @ quote
                        @ '' execution: '' @ str_exn e)
                       (telegram_group r)),
           call env (UploadDocument (log_path r) (telegram_group r) (bot_name r))]
      else return ())"

subsection \<open>\<open>BotRunnerMaestro.run\<close>\<close>

text \<open>
  What one pass of the \<open>while\<close> body leaves to the loop: the \<open>try\<close> block ends
  in \<open>break\<close>, the \<open>except\<close> block falls through to the next pass or raises.
\<close>

datatype loop_exit = Break | Continue

definition try_block_maestro :: "env \<Rightarrow> runner \<Rightarrow> int \<Rightarrow> loop_exit comp" where
  "try_block_maestro env r attempts =
     seq (block
       [set_start_time env,
        logger INFO (''Bot execution started. Attempt '' @ str_int attempts),
        execute_bot_task env])
     (bind_comp (get_execution_time env) (\<lambda>execution_time.
      bind_comp (get_resource_usage env) (\<lambda>resource_usage.
      seq (block
        [logger INFO (bot_name r @ '' Bot execution completed on attempt '' @ str_int attempts
                   @ ''.''),
         logger INFO (''Execution time: '' @ execution_time),
         logger INFO (''Resource usage at end of execution: '' @ resource_usage),
         call env ListFolders,
         call env (UploadFiles [log_path r]),
         insert_database_log_execution_maestro env r,
         call env (FinishTask (task_id r) SUCCESS
                     (''Execution time: '' @ execution_time @ newline
                      @ ''Resource usage at end of execution: '' @ resource_usage)),
         telegram_completed env r])
      (return Break))))"

text \<open>
  The \<open>except\<close> block; \<open>attempts\<close> is the counter after \<open>attempts += 1\<close>.
\<close>

definition except_block_maestro :: "env \<Rightarrow> runner \<Rightarrow> int \<Rightarrow> exn \<Rightarrow> loop_exit comp" where
  "except_block_maestro env r attempts e =
     seq (block
       [logger ERROR (''An error occurred during bot '' @ quote @ bot_name r @ quote
                   @ '' execution: '' @ str_exn e),
        call env (MaestroError (task_id r) e [log_path r]),
        call env (FinishTask (task_id r) FAILED
                    (''An error occurred during bot execution: '' @ str_exn e)),
        telegram_error env r e])
     (if attempts > max_retries r then
        seq (block
          [logger ERROR (''Max retries reached ('' @ str_int (max_retries r) @ ''). Giving up.''),
           call env ListFolders,
           call env (UploadFiles [log_path r])])
        (raise e)
      else
        seq (logger INFO (''Retrying bot execution (attempt '' @ str_int attempts @ '')...''))
        (return Continue))"

definition attempt_maestro :: "env \<Rightarrow> runner \<Rightarrow> int \<Rightarrow> loop_exit comp" where
  "attempt_maestro env r attempts =
     try_finally
       (try_except (try_block_maestro env r attempts)
          (\<lambda>e. except_block_maestro env r (attempts + 1) e))
       (add_log_file_into_maestro env r)"

function while_maestro :: "env \<Rightarrow> runner \<Rightarrow> int \<Rightarrow> unit comp" where
  "while_maestro env r attempts s =
     (if attempts \<le> max_retries r then
        (case attempt_maestro env r attempts s of
           (Inl e, s') \<Rightarrow> (Inl e, s')
         | (Inr Break, s') \<Rightarrow> (Inr (), s')
         | (Inr Continue, s') \<Rightarrow> while_maestro env r (attempts + 1) s')
      else (Inr (), s))"
  by pat_completeness auto
termination
  by (relation "measure (\<lambda>(env, r, attempts, s). nat (max_retries r + 1 - attempts))") auto

definition run_maestro :: "env \<Rightarrow> runner \<Rightarrow> unit comp" where
  "run_maestro env r = while_maestro env r 0"

subsection \<open>\<open>BotRunnerLocal.run\<close>\<close>

definition try_block_local :: "env \<Rightarrow> runner \<Rightarrow> int \<Rightarrow> loop_exit comp" where
  "try_block_local env r attempts =
     seq (block
       [set_start_time env,
        logger INFO (''Bot execution started. Attempt '' @ str_int attempts),
        execute_bot_task env,
        logger INFO (bot_name r @ '' Bot execution completed on attempt '' @ str_int attempts
                  @ ''.'')])
     (bind_comp (get_execution_time env) (\<lambda>execution_time.
      seq (logger INFO (''Execution time: '' @ execution_time))
     (bind_comp (get_resource_usage env) (\<lambda>resource_usage.
      seq (block
        [logger INFO (''Resource usage at end of execution: '' @ resource_usage),
         call env ListFolders,
         call env (UploadFiles [log_path r]),
         insert_database_log_execution_local env r,
         telegram_completed env r])
      (return Break)))))"

definition except_block_local :: "env \<Rightarrow> runner \<Rightarrow> int \<Rightarrow> exn \<Rightarrow> loop_exit comp" where
  "except_block_local env r attempts e =
     seq (block
       [logger ERROR (''An error occurred during bot '' @ quote @ bot_name r @ quote
                   @ '' attempt: '' @ str_int attempts @ '', execution: '' @ str_exn e),
        telegram_error env r e])
     (if attempts > max_retries r then
        seq (logger ERROR (''Max retries reached ('' @ str_int (max_retries r) @ ''). Giving up.''))
        (raise e)
      else
        seq (logger INFO (''Retrying bot execution (attempt '' @ str_int attempts @ '')...''))
        (return Continue))"

definition attempt_local :: "env \<Rightarrow> runner \<Rightarrow> int \<Rightarrow> loop_exit comp" where
  "attempt_local env r attempts =
     try_except (try_block_local env r attempts)
       (\<lambda>e. except_block_local env r (attempts + 1) e)"

function while_local :: "env \<Rightarrow> runner \<Rightarrow> int \<Rightarrow> unit comp" where
  "while_local env r attempts s =
     (if attempts \<le> max_retries r then
        (case attempt_local env r attempts s of
           (Inl e, s') \<Rightarrow> (Inl e, s')
         | (Inr Break, s') \<Rightarrow> (Inr (), s')
         | (Inr Continue, s') \<Rightarrow> while_local env r (attempts + 1) s')
      else (Inr (), s))"
  by pat_completeness auto
termination
  by (relation "measure (\<lambda>(env, r, attempts, s). nat (max_retries r + 1 - attempts))") auto

definition run_local :: "env \<Rightarrow> runner \<Rightarrow> unit comp" where
  "run_local env r = while_local env r 0"

subsection \<open>The constructors\<close>









section \<open>Definitions used by the properties\<close>

text \<open>
  The format \<open>DD:HH:MM:SS\<close> as the specification words it: four fields of two
  decimal digits each, days, hours, minutes and seconds of the elapsed whole seconds.
\<close>

definition two_digits :: "int \<Rightarrow> string" where
  "two_digits n = [digit_char (nat n div 10), digit_char (nat n mod 10)]"

definition dd_hh_mm_ss :: "int \<Rightarrow> string" where
  "dd_hh_mm_ss e =
     two_digits (e div 86400) @ '':'' @ two_digits (e mod 86400 div 3600) @ '':''
     @ two_digits (e mod 3600 div 60) @ '':'' @ two_digits (e mod 60)"

text \<open>An environment whose clock always reads 91061.5 seconds.\<close>

definition env_90061 :: env where
  "env_90061 = \<lparr>task_result = (\<lambda>i. None), collab_result = (\<lambda>n. None),
     returns = (\<lambda>n. []), clock = (\<lambda>n. 91061.5),
     logger_log_filename = [], logger_log_path = [],
     execution_task_id = [], execution_parameters = []\<rparr>"

subsection \<open>Observations of a trace\<close>

text \<open>
  No call to a collaborator raises. The loguru logger and \<open>time.time()\<close> never raise
  in the model; the task function has its own outcomes, \<open>task_result\<close>.
\<close>

definition collaborators_ok :: "env \<Rightarrow> bool" where
  "collaborators_ok env = (\<forall>n. collab_result env n = None)"

text \<open>
  The number of invocations of the task function, the statuses of the \<open>finish_task\<close>
  calls in their order, the number of \<open>post_artifact\<close> calls, and the Telegram calls.
\<close>

definition invocations :: "event list \<Rightarrow> nat" where
  "invocations tr = count_list tr ExecuteBotTask"

fun finish_status :: "event \<Rightarrow> status list" where
  "finish_status (FinishTask tid st msg) = [st]"
| "finish_status ev = []"

definition finish_statuses :: "event list \<Rightarrow> status list" where
  "finish_statuses tr = concat (map finish_status tr)"

fun is_artifact_upload :: "event \<Rightarrow> bool" where
  "is_artifact_upload (PostArtifact tid name path) = True"
| "is_artifact_upload ev = False"

definition artifact_uploads :: "event list \<Rightarrow> nat" where
  "artifact_uploads tr = length (filter is_artifact_upload tr)"

fun is_notification :: "event \<Rightarrow> bool" where
  "is_notification (SendMessage text grp) = True"
| "is_notification (UploadDocument doc grp caption) = True"
| "is_notification ev = False"

definition notifications :: "event list \<Rightarrow> event list" where
  "notifications tr = filter is_notification tr"

text \<open>
  The status \<open>finish_task\<close> reports for an attempt with the given outcome, and the
  Telegram calls both \<open>run\<close> methods make for it.
\<close>

definition outcome_status :: "exn option \<Rightarrow> status" where
  "outcome_status out = (case out of None \<Rightarrow> SUCCESS | Some e \<Rightarrow> FAILED)"

definition attempt_notifications :: "runner \<Rightarrow> exn option \<Rightarrow> event list" where
  "attempt_notifications r out =
     (if use_telegram r then
        [SendMessage
           (case out of
              None \<Rightarrow> bot_name r @ '' Bot execution completed.''
            | Some e \<Rightarrow> ''An error occurred during bot '' @ quote @ bot_name r @ quote
                        @ '' execution: '' @ str_exn e)
           (telegram_group r),
         UploadDocument (log_path r) (telegram_group r) (bot_name r)]
      else [])"

subsection \<open>The supervisor of the specification\<close>

text \<open>
  The state machine of the specification, on the outcomes of the task function alone:
  \<open>Running(a)\<close> goes to \<open>Succeeded\<close> on success, to \<open>Running(a+1)\<close> on an error
  while \<open>a < max_retries\<close>, and to \<open>Failed-Terminal\<close>, re-raising the error,
  otherwise. \<open>supervisor task i remaining\<close> starts with the \<open>i\<close>-th outcome and
  \<open>remaining = max_retries - a\<close>; it returns the terminal outcome and the number of
  attempts made.
\<close>

fun supervisor :: "(nat \<Rightarrow> exn option) \<Rightarrow> nat \<Rightarrow> nat \<Rightarrow> (exn + unit) \<times> nat" where
  "supervisor task i remaining =
     (case task i of
        None \<Rightarrow> (Inr (), 1)
      | Some e \<Rightarrow>
          (case remaining of
             0 \<Rightarrow> (Inl e, 1)
           | Suc n \<Rightarrow> (case supervisor task (Suc i) n of (res, c) \<Rightarrow> (res, Suc c))))"

declare supervisor.simps [simp del]
declare while_maestro.simps [simp del]
declare while_local.simps [simp del]

subsection \<open>Predicates on computations\<close>

text \<open>
  \<open>emits P m evs\<close>: whatever the state and the outcome, the events with \<open>P\<close> that
  \<open>m\<close> adds to the trace are \<open>evs\<close>. \<open>counted\<close> picks the invocations of the
  task function and the artifact uploads.
\<close>

definition emits :: "(event \<Rightarrow> bool) \<Rightarrow> 'a comp \<Rightarrow> event list \<Rightarrow> bool" where
  "emits P m evs = (\<forall>s. filter P (trace (snd (m s))) = filter P (trace s) @ evs)"

definition counted :: "event \<Rightarrow> bool" where
  "counted ev = (ev = ExecuteBotTask \<or> is_artifact_upload ev)"

text \<open>
  The calls on the orchestrator SDK that the \<open>run\<close> methods may make.
\<close>

fun is_orchestrator_call :: "event \<Rightarrow> bool" where
  "is_orchestrator_call (FinishTask tid st msg) = True"
| "is_orchestrator_call (MaestroError tid e attachments) = True"
| "is_orchestrator_call (PostArtifact tid name path) = True"
| "is_orchestrator_call (GetCredential label key) = True"
| "is_orchestrator_call ev = False"

definition orchestrator_calls :: "event list \<Rightarrow> event list" where
  "orchestrator_calls tr = filter is_orchestrator_call tr"

subsection \<open>Concrete inputs\<close>

text \<open>
  A task error; environments whose task function always returns, always raises, and
  raises on its first invocation only, all with collaborators that do not raise and a
  clock that reads the number of events so far; runners without Telegram with 0, 1 and 2
  retries; the state before any event.
\<close>

definition boom :: exn where
  "boom = Exn ''RuntimeError'' ''boom''"

definition env_ok :: env where
  "env_ok = \<lparr>task_result = (\<lambda>i. None), collab_result = (\<lambda>n. None),
     returns = (\<lambda>n. []), clock = (\<lambda>n. real n),
     logger_log_filename = [], logger_log_path = [],
     execution_task_id = [], execution_parameters = []\<rparr>"

definition env_fails :: env where
  "env_fails = env_ok\<lparr>task_result := (\<lambda>i. Some boom)\<rparr>"

definition env_flaky :: env where
  "env_flaky = env_ok\<lparr>task_result := (\<lambda>i. if i = 0 then Some boom else None)\<rparr>"

definition runner_0 :: runner where
  "runner_0 = \<lparr>bot_name = ''bot'', dev = ''dev'', sector = ''sector'',
     stakeholder = ''stakeholder'', recurrence = ''daily'', max_retries = 0,
     use_telegram = False, telegram_group = [], telegram_token = None,
     log_filename = ''bot.log'', log_path = ''logs/bot.log'', task_id = ''1''\<rparr>"

definition runner_1 :: runner where
  "runner_1 = runner_0\<lparr>max_retries := 1\<rparr>"


definition s0 :: state where
  "s0 = \<lparr>trace = [], start_time = None\<rparr>"









section \<open>Properties\<close>

subsection \<open>The execution time\<close>

lemma str_nat_small: "n < 10 \<Longrightarrow> str_nat n = [digit_char n]"
  by simp

lemma str_nat_two:
  "10 \<le> n \<Longrightarrow> n < 100 \<Longrightarrow> str_nat n = [digit_char (n div 10), digit_char (n mod 10)]"
  by (subst str_nat.simps) (simp add: str_nat_small)

lemma format_02_two_digits:
  assumes "0 \<le> i" "i < 100"
  shows "format_02 i = two_digits i"
proof (cases "nat i < 10")
  case True
  then have "str_nat (nat i) = [digit_char (nat i)]" by (rule str_nat_small)
  moreover have "digit_char (nat i div 10) = CHR ''0''" using True by (simp add: digit_char_def)
  ultimately show ?thesis using assms True
    by (simp add: format_02_def two_digits_def del: str_nat.simps)
next
  case False
  then have "str_nat (nat i) = [digit_char (nat i div 10), digit_char (nat i mod 10)]"
    using assms by (intro str_nat_two) auto
  then show ?thesis using assms
    by (simp add: format_02_def two_digits_def del: str_nat.simps)
qed

lemma format_execution_time_dd_hh_mm_ss:
  assumes "0 \<le> py_int (end_time - t0)" "py_int (end_time - t0) < 8640000"
  shows "format_execution_time t0 end_time = dd_hh_mm_ss (py_int (end_time - t0))"
proof -
  define e where "e = py_int (end_time - t0)"
  have d: "0 \<le> e div 86400" "e div 86400 < 100" using assms unfolding e_def by auto
  have h: "0 \<le> e mod 86400 div 3600" "e mod 86400 div 3600 < 100" by auto
  have m: "0 \<le> e mod 86400 mod 3600 div 60" "e mod 86400 mod 3600 div 60 < 100" by auto
  have s: "0 \<le> e mod 86400 mod 3600 mod 60" "e mod 86400 mod 3600 mod 60 < 100" by auto
  have mm: "e mod 86400 mod 3600 = e mod 3600" by (simp add: mod_mod_cancel)
  have ms: "e mod 3600 mod 60 = e mod 60" by (simp add: mod_mod_cancel)
  show ?thesis
    unfolding format_execution_time_def dd_hh_mm_ss_def e_def[symmetric] Let_def
    using format_02_two_digits[OF d] format_02_two_digits[OF h] format_02_two_digits[OF m]
      format_02_two_digits[OF s] mm ms
    by simp
qed

lemma dd_hh_mm_ss_90061: "dd_hh_mm_ss 90061 = ''01:01:01:01''"
  by (simp add: dd_hh_mm_ss_def two_digits_def digit_char_def)

lemma dd_hh_mm_ss_0: "dd_hh_mm_ss 0 = ''00:00:00:00''"
  by (simp add: dd_hh_mm_ss_def two_digits_def digit_char_def)

text \<open>
  C8. With a start time set, \<open>_get_execution_time\<close> truncates the elapsed time to whole
  seconds and formats them as zero-padded \<open>DD:HH:MM:SS\<close> (for every elapsed time from 0
  up to 100 days, where the days still fit two digits): 90061 seconds give
  \<open>01:01:01:01\<close> and 0 seconds give \<open>00:00:00:00\<close>. The state is unchanged.
\<close>

theorem get_execution_time_format:
  assumes "start_time s = Some t0"
  shows "(py_int (clock env (length (trace s)) - t0) = 90061 \<longrightarrow>
            get_execution_time env s = (Inr ''01:01:01:01'', s))
       \<and> (py_int (clock env (length (trace s)) - t0) = 0 \<longrightarrow>
            get_execution_time env s = (Inr ''00:00:00:00'', s))
       \<and> (0 \<le> py_int (clock env (length (trace s)) - t0)
            \<and> py_int (clock env (length (trace s)) - t0) < 8640000 \<longrightarrow>
            get_execution_time env s
              = (Inr (dd_hh_mm_ss (py_int (clock env (length (trace s)) - t0))), s))"
proof -
  have g: "get_execution_time env s
        = (Inr (format_execution_time t0 (clock env (length (trace s)))), s)"
    using assms by (simp add: get_execution_time_def bind_comp_def time_time_def return_def)
  show ?thesis
    unfolding g using format_execution_time_dd_hh_mm_ss[of "clock env (length (trace s))" t0]
    by (auto simp: dd_hh_mm_ss_90061 dd_hh_mm_ss_0)
qed

theorem get_execution_time_format_witness:
  "start_time \<lparr>trace = [], start_time = Some 1000\<rparr> = Some 1000
   \<and> py_int (clock env_90061 (length (trace \<lparr>trace = [], start_time = Some 1000\<rparr>)) - 1000)
       = 90061
   \<and> get_execution_time env_90061 \<lparr>trace = [], start_time = Some 1000\<rparr>
       = (Inr ''01:01:01:01'', \<lparr>trace = [], start_time = Some 1000\<rparr>)"
  using get_execution_time_format[of "\<lparr>trace = [], start_time = Some 1000\<rparr>" 1000 env_90061]
  by (simp add: env_90061_def py_int_def)

text \<open>
  C10. Called while \<open>self.start_time\<close> is \<open>None\<close>, \<open>_get_execution_time\<close> returns the
  string \<open>Execution time not available\<close> and no formatted duration.
\<close>

theorem get_execution_time_not_available:
  "start_time s = None \<Longrightarrow>
     get_execution_time env s = (Inr ''Execution time not available'', s)"
  by (simp add: get_execution_time_def)

theorem get_execution_time_not_available_witness:
  "start_time \<lparr>trace = [], start_time = None\<rparr> = None
   \<and> get_execution_time env_90061 \<lparr>trace = [], start_time = None\<rparr>
       = (Inr ''Execution time not available'', \<lparr>trace = [], start_time = None\<rparr>)"
  using get_execution_time_not_available[of "\<lparr>trace = [], start_time = None\<rparr>" env_90061]
  by simp

subsection \<open>One attempt, with collaborators that do not raise\<close>

lemmas comp_defs = return_def raise_def bind_comp_def seq_def try_except_def try_finally_def
  emit_def logger_def call_value_def call_def time_time_def set_start_time_def
  get_execution_time_def get_resource_usage_def get_credential_def execute_bot_task_def
  add_log_file_into_maestro_def insert_database_log_execution_maestro_def
  insert_database_log_execution_local_def telegram_completed_def telegram_error_def

lemmas obs_defs = invocations_def finish_statuses_def artifact_uploads_def notifications_def
  outcome_status_def attempt_notifications_def

lemma attempt_maestro_ok:
  assumes "collaborators_ok env" "task_result env (invocations (trace s)) = None"
  shows "\<exists>s'. attempt_maestro env r a s = (Inr Break, s')
           \<and> invocations (trace s') = Suc (invocations (trace s))
           \<and> finish_statuses (trace s') = finish_statuses (trace s) @ [SUCCESS]
           \<and> artifact_uploads (trace s') = Suc (artifact_uploads (trace s))
           \<and> notifications (trace s') = notifications (trace s) @ attempt_notifications r None"
  using assms
  by (simp add: attempt_maestro_def try_block_maestro_def except_block_maestro_def comp_defs
      collaborators_ok_def obs_defs)

lemma attempt_maestro_retry:
  assumes "collaborators_ok env" "task_result env (invocations (trace s)) = Some e"
    "a + 1 \<le> max_retries r"
  shows "\<exists>s'. attempt_maestro env r a s = (Inr Continue, s')
           \<and> invocations (trace s') = Suc (invocations (trace s))
           \<and> finish_statuses (trace s') = finish_statuses (trace s) @ [FAILED]
           \<and> artifact_uploads (trace s') = Suc (artifact_uploads (trace s))
           \<and> notifications (trace s') = notifications (trace s) @ attempt_notifications r (Some e)"
  using assms
  by (simp add: attempt_maestro_def try_block_maestro_def except_block_maestro_def comp_defs
      collaborators_ok_def obs_defs)

lemma attempt_maestro_give_up:
  assumes "collaborators_ok env" "task_result env (invocations (trace s)) = Some e"
    "\<not> a + 1 \<le> max_retries r"
  shows "\<exists>s'. attempt_maestro env r a s = (Inl e, s')
           \<and> invocations (trace s') = Suc (invocations (trace s))
           \<and> finish_statuses (trace s') = finish_statuses (trace s) @ [FAILED]
           \<and> artifact_uploads (trace s') = Suc (artifact_uploads (trace s))
           \<and> notifications (trace s') = notifications (trace s) @ attempt_notifications r (Some e)"
  using assms
  by (simp add: attempt_maestro_def try_block_maestro_def except_block_maestro_def comp_defs
      collaborators_ok_def obs_defs)

lemma attempt_local_ok:
  assumes "collaborators_ok env" "task_result env (invocations (trace s)) = None"
  shows "\<exists>s'. attempt_local env r a s = (Inr Break, s')
           \<and> invocations (trace s') = Suc (invocations (trace s))
           \<and> finish_statuses (trace s') = finish_statuses (trace s)
           \<and> artifact_uploads (trace s') = artifact_uploads (trace s)
           \<and> notifications (trace s') = notifications (trace s) @ attempt_notifications r None"
  using assms
  by (simp add: attempt_local_def try_block_local_def except_block_local_def comp_defs
      collaborators_ok_def obs_defs)

lemma attempt_local_retry:
  assumes "collaborators_ok env" "task_result env (invocations (trace s)) = Some e"
    "a + 1 \<le> max_retries r"
  shows "\<exists>s'. attempt_local env r a s = (Inr Continue, s')
           \<and> invocations (trace s') = Suc (invocations (trace s))
           \<and> finish_statuses (trace s') = finish_statuses (trace s)
           \<and> artifact_uploads (trace s') = artifact_uploads (trace s)
           \<and> notifications (trace s') = notifications (trace s) @ attempt_notifications r (Some e)"
  using assms
  by (simp add: attempt_local_def try_block_local_def except_block_local_def comp_defs
      collaborators_ok_def obs_defs)

lemma attempt_local_give_up:
  assumes "collaborators_ok env" "task_result env (invocations (trace s)) = Some e"
    "\<not> a + 1 \<le> max_retries r"
  shows "\<exists>s'. attempt_local env r a s = (Inl e, s')
           \<and> invocations (trace s') = Suc (invocations (trace s))
           \<and> finish_statuses (trace s') = finish_statuses (trace s)
           \<and> artifact_uploads (trace s') = artifact_uploads (trace s)
           \<and> notifications (trace s') = notifications (trace s) @ attempt_notifications r (Some e)"
  using assms
  by (simp add: attempt_local_def try_block_local_def except_block_local_def comp_defs
      collaborators_ok_def obs_defs)

subsection \<open>The loop of \<open>BotRunnerMaestro.run\<close> and the supervisor\<close>

lemma supervisor_pos: "0 < snd (supervisor task i n)"
  by (induction n arbitrary: i) (subst supervisor.simps, simp split: option.split prod.split nat.split)+

lemma upt_first: "0 < c \<Longrightarrow> [i..<i + c] = i # [Suc i..<i + c]"
  by (simp add: upt_conv_Cons)

lemma while_maestro_supervisor:
  assumes "collaborators_ok env"
  shows "n = nat (max_retries r - a) \<Longrightarrow> a \<le> max_retries r \<Longrightarrow>
     \<exists>s'. while_maestro env r a s
             = (fst (supervisor (task_result env) (invocations (trace s)) n), s')
        \<and> invocations (trace s')
             = invocations (trace s) + snd (supervisor (task_result env) (invocations (trace s)) n)
        \<and> finish_statuses (trace s')
             = finish_statuses (trace s)
               @ map (\<lambda>i. outcome_status (task_result env i))
                   [invocations (trace s)..<invocations (trace s')]
        \<and> artifact_uploads (trace s') + invocations (trace s)
             = artifact_uploads (trace s) + invocations (trace s')
        \<and> notifications (trace s')
             = notifications (trace s)
               @ concat (map (\<lambda>i. attempt_notifications r (task_result env i))
                   [invocations (trace s)..<invocations (trace s')])"
proof (induction n arbitrary: a s)
  case 0
  then have a: "\<not> a + 1 \<le> max_retries r" by simp
  show ?case
  proof (cases "task_result env (invocations (trace s))")
    case None
    from attempt_maestro_ok[OF assms None, of r a] obtain s' where
      "attempt_maestro env r a s = (Inr Break, s')"
      "invocations (trace s') = Suc (invocations (trace s))"
      "finish_statuses (trace s') = finish_statuses (trace s) @ [SUCCESS]"
      "artifact_uploads (trace s') = Suc (artifact_uploads (trace s))"
      "notifications (trace s') = notifications (trace s) @ attempt_notifications r None"
      by blast
    then show ?thesis using None 0
      by (subst while_maestro.simps, subst supervisor.simps, subst supervisor.simps)
         (simp add: outcome_status_def)
  next
    case (Some e)
    from attempt_maestro_give_up[OF assms Some a] obtain s' where
      "attempt_maestro env r a s = (Inl e, s')"
      "invocations (trace s') = Suc (invocations (trace s))"
      "finish_statuses (trace s') = finish_statuses (trace s) @ [FAILED]"
      "artifact_uploads (trace s') = Suc (artifact_uploads (trace s))"
      "notifications (trace s') = notifications (trace s) @ attempt_notifications r (Some e)"
      by blast
    then show ?thesis using Some 0
      by (subst while_maestro.simps, subst supervisor.simps, subst supervisor.simps)
         (simp add: outcome_status_def)
  qed
next
  case (Suc n)
  then have a: "a + 1 \<le> max_retries r" by simp
  show ?case
  proof (cases "task_result env (invocations (trace s))")
    case None
    from attempt_maestro_ok[OF assms None, of r a] obtain s' where
      "attempt_maestro env r a s = (Inr Break, s')"
      "invocations (trace s') = Suc (invocations (trace s))"
      "finish_statuses (trace s') = finish_statuses (trace s) @ [SUCCESS]"
      "artifact_uploads (trace s') = Suc (artifact_uploads (trace s))"
      "notifications (trace s') = notifications (trace s) @ attempt_notifications r None"
      by blast
    then show ?thesis using None Suc.prems
      by (subst while_maestro.simps, subst supervisor.simps, subst supervisor.simps)
         (simp add: outcome_status_def)
  next
    case (Some e)
    from attempt_maestro_retry[OF assms Some a] obtain s1 where s1:
      "attempt_maestro env r a s = (Inr Continue, s1)"
      "invocations (trace s1) = Suc (invocations (trace s))"
      "finish_statuses (trace s1) = finish_statuses (trace s) @ [FAILED]"
      "artifact_uploads (trace s1) = Suc (artifact_uploads (trace s))"
      "notifications (trace s1) = notifications (trace s) @ attempt_notifications r (Some e)"
      by blast
    have n: "n = nat (max_retries r - (a + 1))" using Suc.prems by simp
    define c where "c = snd (supervisor (task_result env) (Suc (invocations (trace s))) n)"
    have c: "0 < c" unfolding c_def by (rule supervisor_pos)
    from Suc.IH[OF n a, of s1] obtain s' where s':
      "while_maestro env r (a + 1) s1
         = (fst (supervisor (task_result env) (Suc (invocations (trace s))) n), s')"
      "invocations (trace s') = Suc (invocations (trace s)) + c"
      "finish_statuses (trace s')
         = finish_statuses (trace s1)
           @ map (\<lambda>i. outcome_status (task_result env i))
               [Suc (invocations (trace s))..<invocations (trace s')]"
      "artifact_uploads (trace s') + Suc (invocations (trace s))
         = artifact_uploads (trace s1) + invocations (trace s')"
      "notifications (trace s')
         = notifications (trace s1)
           @ concat (map (\<lambda>i. attempt_notifications r (task_result env i))
               [Suc (invocations (trace s))..<invocations (trace s')])"
      unfolding c_def s1(2) by blast
    have sup: "supervisor (task_result env) (invocations (trace s)) (Suc n)
        = (fst (supervisor (task_result env) (Suc (invocations (trace s))) n), Suc c)"
      by (subst supervisor.simps) (simp add: Some c_def split: prod.split)
    have upt: "[invocations (trace s)..<invocations (trace s')]
        = invocations (trace s) # [Suc (invocations (trace s))..<invocations (trace s')]"
      using s'(2) by (simp add: upt_conv_Cons)
    have w: "while_maestro env r a s = while_maestro env r (a + 1) s1"
      using Suc.prems s1(1) by (subst while_maestro.simps) simp
    show ?thesis
      unfolding w sup using s' s1 Some upt by (simp add: outcome_status_def)
  qed
qed

subsection \<open>Events of an attempt, whatever the collaborators do\<close>

lemma emitsD: "emits P m evs \<Longrightarrow> filter P (trace (snd (m s))) = filter P (trace s) @ evs"
  by (simp add: emits_def)

lemma emits_return: "emits P (return x) []"
  by (simp add: emits_def return_def)

lemma emits_raise: "emits P (raise e) []"
  by (simp add: emits_def raise_def)

lemma emits_logger: "\<not> P (Log lvl msg) \<Longrightarrow> emits P (logger lvl msg) []"
  by (simp add: emits_def logger_def emit_def)

lemma emits_call_value: "emits P (call_value env ev) (filter P [ev])"
  by (simp add: emits_def call_value_def emit_def split: option.split)

lemma emits_call: "emits P (call env ev) (filter P [ev])"
  by (simp add: emits_def call_def call_value_def bind_comp_def return_def emit_def
      split: option.split)

lemma quiet_call_value: "\<not> P ev \<Longrightarrow> emits P (call_value env ev) []"
  using emits_call_value[of P env ev] by simp

lemma quiet_call: "\<not> P ev \<Longrightarrow> emits P (call env ev) []"
  using emits_call[of P env ev] by simp

lemma emits_time_time: "emits P (time_time env) []"
  by (simp add: emits_def time_time_def)

lemma emits_set_start_time: "emits P (set_start_time env) []"
  by (simp add: emits_def set_start_time_def bind_comp_def time_time_def)

lemma emits_get_execution_time: "emits P (get_execution_time env) []"
  by (simp add: emits_def get_execution_time_def bind_comp_def time_time_def return_def
      split: option.split)

lemma emits_execute_bot_task: "emits P (execute_bot_task env) (filter P [ExecuteBotTask])"
  by (simp add: emits_def execute_bot_task_def emit_def split: option.split)

lemma emits_bind:
  assumes "emits P m evs" "\<And>x. emits P (k x) []"
  shows "emits P (bind_comp m k) evs"
  unfolding emits_def
proof
  fix s
  show "filter P (trace (snd (bind_comp m k s))) = filter P (trace s) @ evs"
  proof (cases "m s")
    case (Pair res s1)
    then have s1: "filter P (trace s1) = filter P (trace s) @ evs"
      using emitsD[OF assms(1), of s] by simp
    show ?thesis
    proof (cases res)
      case (Inl e)
      then show ?thesis using Pair s1 by (simp add: bind_comp_def)
    next
      case (Inr x)
      then show ?thesis using Pair s1 emitsD[OF assms(2), of x s1] by (simp add: bind_comp_def)
    qed
  qed
qed

lemma emits_seq: "emits P m evs \<Longrightarrow> emits P k [] \<Longrightarrow> emits P (seq m k) evs"
  unfolding seq_def by (rule emits_bind)

lemma emits_try_except:
  assumes "emits P m evs" "\<And>e. emits P (h e) []"
  shows "emits P (try_except m h) evs"
  unfolding emits_def
proof
  fix s
  show "filter P (trace (snd (try_except m h s))) = filter P (trace s) @ evs"
  proof (cases "m s")
    case (Pair res s1)
    then have s1: "filter P (trace s1) = filter P (trace s) @ evs"
      using emitsD[OF assms(1), of s] by simp
    show ?thesis
    proof (cases res)
      case (Inl e)
      then show ?thesis using Pair s1 emitsD[OF assms(2), of e s1] by (simp add: try_except_def)
    next
      case (Inr x)
      then show ?thesis using Pair s1 by (simp add: try_except_def)
    qed
  qed
qed

lemma emits_try_finally:
  assumes "emits P m evs" "emits P f evs'"
  shows "emits P (try_finally m f) (evs @ evs')"
  unfolding emits_def
proof
  fix s
  show "filter P (trace (snd (try_finally m f s))) = filter P (trace s) @ evs @ evs'"
  proof (cases "m s")
    case (Pair res s1)
    then have s1: "filter P (trace s1) = filter P (trace s) @ evs"
      using emitsD[OF assms(1), of s] by simp
    show ?thesis using Pair s1 emitsD[OF assms(2), of s1]
      by (cases "f s1") (auto simp: try_finally_def split: sum.split)
  qed
qed

lemma emits_if:
  "(c \<Longrightarrow> emits P a evs) \<Longrightarrow> (\<not> c \<Longrightarrow> emits P b evs) \<Longrightarrow> emits P (if c then a else b) evs"
  by simp

lemmas quiet_rules = emits_return emits_raise emits_logger quiet_call_value quiet_call
  emits_time_time emits_set_start_time emits_get_execution_time emits_bind emits_seq
  emits_try_except emits_if

lemma quiet_insert_database_log_execution_maestro:
  "emits counted (insert_database_log_execution_maestro env r) []"
  unfolding insert_database_log_execution_maestro_def get_credential_def block.simps
  by (intro quiet_rules; simp add: counted_def)

lemma quiet_telegram_completed: "emits counted (telegram_completed env r) []"
  unfolding telegram_completed_def block.simps
  by (intro quiet_rules; simp add: counted_def)

lemma quiet_telegram_error: "emits counted (telegram_error env r e) []"
  unfolding telegram_error_def block.simps
  by (intro quiet_rules; simp add: counted_def)

lemma emits_front:
  "emits counted (block [set_start_time env, logger lvl msg, execute_bot_task env])
     [ExecuteBotTask]"
  by (simp add: emits_def comp_defs counted_def split: option.split)

lemma emits_try_block_maestro:
  "emits counted (try_block_maestro env r a) [ExecuteBotTask]"
  unfolding try_block_maestro_def get_resource_usage_def
  apply (rule emits_seq[OF emits_front])
  unfolding block.simps
  by (intro quiet_rules quiet_insert_database_log_execution_maestro quiet_telegram_completed;
      simp add: counted_def)

lemma quiet_except_block_maestro:
  "emits counted (except_block_maestro env r a e) []"
  unfolding except_block_maestro_def block.simps
  by (intro quiet_rules quiet_telegram_error; simp add: counted_def)

lemma emits_add_log_file_into_maestro:
  "emits counted (add_log_file_into_maestro env r)
     [PostArtifact (task_id r) (log_filename r) (log_path r)]"
  by (simp add: emits_def comp_defs counted_def split: option.split)

lemma emits_attempt_maestro:
  "emits counted (attempt_maestro env r a)
     [ExecuteBotTask, PostArtifact (task_id r) (log_filename r) (log_path r)]"
  unfolding attempt_maestro_def
  using emits_try_finally[OF emits_try_except[OF emits_try_block_maestro
        quiet_except_block_maestro] emits_add_log_file_into_maestro]
  by simp

lemma invocations_filter: "invocations tr = length (filter (\<lambda>ev. ev = ExecuteBotTask) (filter counted tr))"
  by (induction tr) (auto simp: invocations_def counted_def)

lemma artifact_uploads_filter: "artifact_uploads tr = length (filter is_artifact_upload (filter counted tr))"
  by (induction tr) (auto simp: artifact_uploads_def counted_def)

lemma attempt_maestro_counts:
  "invocations (trace (snd (attempt_maestro env r a s))) = Suc (invocations (trace s))"
  "artifact_uploads (trace (snd (attempt_maestro env r a s))) = Suc (artifact_uploads (trace s))"
  by (simp_all add: invocations_filter artifact_uploads_filter emitsD[OF emits_attempt_maestro])

lemma while_maestro_counts:
  "artifact_uploads (trace (snd (while_maestro env r a s))) + invocations (trace s)
     = artifact_uploads (trace s) + invocations (trace (snd (while_maestro env r a s)))"
proof (induction env r a s rule: while_maestro.induct)
  case (1 env r attempts s)
  show ?case
  proof (cases "attempts \<le> max_retries r")
    case False
    then show ?thesis by (subst (1 2) while_maestro.simps) simp
  next
    case True
    obtain res s1 where a: "attempt_maestro env r attempts s = (res, s1)"
      by (cases "attempt_maestro env r attempts s")
    have c: "invocations (trace s1) = Suc (invocations (trace s))"
      "artifact_uploads (trace s1) = Suc (artifact_uploads (trace s))"
      using attempt_maestro_counts[of env r attempts s] a by simp_all
    show ?thesis
    proof (cases res)
      case (Inl e)
      then show ?thesis using True a c by (subst (1 2) while_maestro.simps) simp
    next
      case (Inr x)
      show ?thesis
      proof (cases x)
        case Break
        then show ?thesis using True a c Inr by (subst (1 2) while_maestro.simps) simp
      next
        case Continue
        have "while_maestro env r attempts s = while_maestro env r (attempts + 1) s1"
          using True a Inr Continue by (subst while_maestro.simps) simp
        then show ?thesis using "1.IH"[OF True a[symmetric] Inr Continue] c Inr Continue
          by simp
      qed
    qed
  qed
qed

subsection \<open>The loop of \<open>BotRunnerLocal.run\<close> and the supervisor\<close>

lemma while_local_supervisor:
  assumes "collaborators_ok env"
  shows "n = nat (max_retries r - a) \<Longrightarrow> a \<le> max_retries r \<Longrightarrow>
     \<exists>s'. while_local env r a s
             = (fst (supervisor (task_result env) (invocations (trace s)) n), s')
        \<and> invocations (trace s')
             = invocations (trace s) + snd (supervisor (task_result env) (invocations (trace s)) n)
        \<and> notifications (trace s')
             = notifications (trace s)
               @ concat (map (\<lambda>i. attempt_notifications r (task_result env i))
                   [invocations (trace s)..<invocations (trace s')])"
proof (induction n arbitrary: a s)
  case 0
  then have a: "\<not> a + 1 \<le> max_retries r" by simp
  show ?case
  proof (cases "task_result env (invocations (trace s))")
    case None
    from attempt_local_ok[OF assms None, of r a] obtain s' where
      "attempt_local env r a s = (Inr Break, s')"
      "invocations (trace s') = Suc (invocations (trace s))"
      "notifications (trace s') = notifications (trace s) @ attempt_notifications r None"
      by blast
    then show ?thesis using None 0
      by (subst while_local.simps, subst supervisor.simps, subst supervisor.simps) simp
  next
    case (Some e)
    from attempt_local_give_up[OF assms Some a] obtain s' where
      "attempt_local env r a s = (Inl e, s')"
      "invocations (trace s') = Suc (invocations (trace s))"
      "notifications (trace s') = notifications (trace s) @ attempt_notifications r (Some e)"
      by blast
    then show ?thesis using Some 0
      by (subst while_local.simps, subst supervisor.simps, subst supervisor.simps) simp
  qed
next
  case (Suc n)
  then have a: "a + 1 \<le> max_retries r" by simp
  show ?case
  proof (cases "task_result env (invocations (trace s))")
    case None
    from attempt_local_ok[OF assms None, of r a] obtain s' where
      "attempt_local env r a s = (Inr Break, s')"
      "invocations (trace s') = Suc (invocations (trace s))"
      "notifications (trace s') = notifications (trace s) @ attempt_notifications r None"
      by blast
    then show ?thesis using None Suc.prems
      by (subst while_local.simps, subst supervisor.simps, subst supervisor.simps) simp
  next
    case (Some e)
    from attempt_local_retry[OF assms Some a] obtain s1 where s1:
      "attempt_local env r a s = (Inr Continue, s1)"
      "invocations (trace s1) = Suc (invocations (trace s))"
      "notifications (trace s1) = notifications (trace s) @ attempt_notifications r (Some e)"
      by blast
    have n: "n = nat (max_retries r - (a + 1))" using Suc.prems by simp
    define c where "c = snd (supervisor (task_result env) (Suc (invocations (trace s))) n)"
    from Suc.IH[OF n a, of s1] obtain s' where s':
      "while_local env r (a + 1) s1
         = (fst (supervisor (task_result env) (Suc (invocations (trace s))) n), s')"
      "invocations (trace s') = Suc (invocations (trace s)) + c"
      "notifications (trace s')
         = notifications (trace s1)
           @ concat (map (\<lambda>i. attempt_notifications r (task_result env i))
               [Suc (invocations (trace s))..<invocations (trace s')])"
      unfolding c_def s1(2) by blast
    have sup: "supervisor (task_result env) (invocations (trace s)) (Suc n)
        = (fst (supervisor (task_result env) (Suc (invocations (trace s))) n), Suc c)"
      by (subst supervisor.simps) (simp add: Some c_def split: prod.split)
    have upt: "[invocations (trace s)..<invocations (trace s')]
        = invocations (trace s) # [Suc (invocations (trace s))..<invocations (trace s')]"
      using s'(2) by (simp add: upt_conv_Cons)
    have w: "while_local env r a s = while_local env r (a + 1) s1"
      using Suc.prems s1(1) by (subst while_local.simps) simp
    show ?thesis
      unfolding w sup using s' s1 Some upt by simp
  qed
qed


lemma supervisor_fail_then_ok:
  "k \<le> n \<Longrightarrow> (\<forall>j<k. task (i + j) \<noteq> None) \<Longrightarrow> task (i + k) = None \<Longrightarrow>
     supervisor task i n = (Inr (), Suc k)"
proof (induction k arbitrary: i n)
  case 0
  then show ?case by (subst supervisor.simps) simp
next
  case (Suc k)
  then obtain m where m: "n = Suc m" "k \<le> m" by (cases n) auto
  have "\<forall>j<k. task (Suc i + j) \<noteq> None"
  proof (intro allI impI)
    fix j assume "j < k"
    then have "task (i + Suc j) \<noteq> None" using Suc.prems(2) by (meson Suc_less_eq)
    then show "task (Suc i + j) \<noteq> None" by simp
  qed
  moreover have "task (Suc i + k) = None" using Suc.prems(3) by simp
  ultimately have "supervisor task (Suc i) m = (Inr (), Suc k)" using Suc.IH[OF m(2)] by blast
  moreover have "task i \<noteq> None" using Suc.prems(2)[rule_format, of 0] by simp
  ultimately show ?case unfolding m(1) by (subst supervisor.simps) (auto split: option.split)
qed

lemma supervisor_result:
  "(fst (supervisor task i n) = Inr ()) = (task (i + snd (supervisor task i n) - 1) = None)"
proof (induction n arbitrary: i)
  case 0
  show ?case by (subst (1 2) supervisor.simps) (simp split: option.split)
next
  case (Suc n)
  have p: "0 < snd (supervisor task (Suc i) n)" by (rule supervisor_pos)
  show ?case
  proof (cases "task i")
    case None
    then show ?thesis by (subst (1 2) supervisor.simps) simp
  next
    case (Some e)
    have "supervisor task i (Suc n) = (fst (supervisor task (Suc i) n), Suc (snd (supervisor task (Suc i) n)))"
      by (subst supervisor.simps) (simp add: Some split: prod.split)
    then show ?thesis using Suc.IH[of "Suc i"] p by simp
  qed
qed

lemma supervisor_raises:
  "(\<exists>e. fst (supervisor task i n) = Inl e) = (\<forall>j\<le>n. task (i + j) \<noteq> None)"
proof (induction n arbitrary: i)
  case 0
  show ?case by (subst supervisor.simps) (auto split: option.split)
next
  case (Suc n)
  show ?case
  proof (cases "task i")
    case None
    then have "\<not> (\<forall>j\<le>Suc n. task (i + j) \<noteq> None)" by (auto intro: exI[of _ 0])
    then show ?thesis using None by (subst supervisor.simps) simp
  next
    case (Some e)
    have "supervisor task i (Suc n) = (fst (supervisor task (Suc i) n), Suc (snd (supervisor task (Suc i) n)))"
      by (subst supervisor.simps) (simp add: Some split: prod.split)
    moreover have "(\<forall>j\<le>Suc n. task (i + j) \<noteq> None) = (\<forall>j\<le>n. task (Suc i + j) \<noteq> None)"
    proof
      assume a: "\<forall>j\<le>Suc n. task (i + j) \<noteq> None"
      show "\<forall>j\<le>n. task (Suc i + j) \<noteq> None"
      proof (intro allI impI)
        fix j assume "j \<le> n"
        then have "task (i + Suc j) \<noteq> None" using a by (meson Suc_le_mono)
        then show "task (Suc i + j) \<noteq> None" by simp
      qed
    next
      assume a: "\<forall>j\<le>n. task (Suc i + j) \<noteq> None"
      show "\<forall>j\<le>Suc n. task (i + j) \<noteq> None"
      proof (intro allI impI)
        fix j assume j: "j \<le> Suc n"
        show "task (i + j) \<noteq> None"
        proof (cases j)
          case 0
          then show ?thesis using Some by simp
        next
          case (Suc j')
          then show ?thesis using a j by simp
        qed
      qed
    qed
    ultimately show ?thesis using Suc.IH[of "Suc i"] by simp
  qed
qed

subsection \<open>The retry loop\<close>

lemma run_maestro_supervisor:
  assumes "collaborators_ok env" "0 \<le> max_retries r"
  shows "\<exists>s'. run_maestro env r s
             = (fst (supervisor (task_result env) (invocations (trace s)) (nat (max_retries r))), s')
        \<and> invocations (trace s')
             = invocations (trace s)
               + snd (supervisor (task_result env) (invocations (trace s)) (nat (max_retries r)))
        \<and> finish_statuses (trace s')
             = finish_statuses (trace s)
               @ map (\<lambda>i. outcome_status (task_result env i))
                   [invocations (trace s)..<invocations (trace s')]
        \<and> notifications (trace s')
             = notifications (trace s)
               @ concat (map (\<lambda>i. attempt_notifications r (task_result env i))
                   [invocations (trace s)..<invocations (trace s')])"
  using while_maestro_supervisor[OF assms(1), of "nat (max_retries r)" r 0 s] assms(2)
  unfolding run_maestro_def by auto

lemma run_local_supervisor:
  assumes "collaborators_ok env" "0 \<le> max_retries r"
  shows "\<exists>s'. run_local env r s
             = (fst (supervisor (task_result env) (invocations (trace s)) (nat (max_retries r))), s')
        \<and> invocations (trace s')
             = invocations (trace s)
               + snd (supervisor (task_result env) (invocations (trace s)) (nat (max_retries r)))
        \<and> notifications (trace s')
             = notifications (trace s)
               @ concat (map (\<lambda>i. attempt_notifications r (task_result env i))
                   [invocations (trace s)..<invocations (trace s')])"
  using while_local_supervisor[OF assms(1), of "nat (max_retries r)" r 0 s] assms(2)
  unfolding run_local_def by auto


lemma collaborators_ok_env_fails: "collaborators_ok env_fails"
  by (simp add: collaborators_ok_def env_fails_def env_ok_def)

lemma collaborators_ok_env_flaky: "collaborators_ok env_flaky"
  by (simp add: collaborators_ok_def env_flaky_def env_ok_def)

lemma collaborators_ok_env_ok: "collaborators_ok env_ok"
  by (simp add: collaborators_ok_def env_ok_def)




subsection \<open>The calls to the orchestrator\<close>

lemma quiet_execute_bot_task: "\<not> P ExecuteBotTask \<Longrightarrow> emits P (execute_bot_task env) []"
  using emits_execute_bot_task[of P env] by simp

lemma quiet_insert_database_log_execution_local:
  "emits is_orchestrator_call (insert_database_log_execution_local env r) []"
  unfolding insert_database_log_execution_local_def block.simps
  by (intro quiet_rules; simp)

lemma quiet_telegram_completed_orchestrator:
  "emits is_orchestrator_call (telegram_completed env r) []"
  unfolding telegram_completed_def block.simps
  by (intro quiet_rules; simp)

lemma quiet_telegram_error_orchestrator:
  "emits is_orchestrator_call (telegram_error env r e) []"
  unfolding telegram_error_def block.simps
  by (intro quiet_rules; simp)

lemma quiet_attempt_local: "emits is_orchestrator_call (attempt_local env r a) []"
  unfolding attempt_local_def try_block_local_def except_block_local_def
    get_resource_usage_def block.simps
  by (intro quiet_rules quiet_execute_bot_task quiet_insert_database_log_execution_local
      quiet_telegram_completed_orchestrator quiet_telegram_error_orchestrator; simp)

lemma while_local_orchestrator_calls:
  "orchestrator_calls (trace (snd (while_local env r a s))) = orchestrator_calls (trace s)"
proof (induction env r a s rule: while_local.induct)
  case (1 env r attempts s)
  show ?case
  proof (cases "attempts \<le> max_retries r")
    case False
    then show ?thesis by (subst while_local.simps) simp
  next
    case True
    obtain res s1 where a: "attempt_local env r attempts s = (res, s1)"
      by (cases "attempt_local env r attempts s")
    have c: "orchestrator_calls (trace s1) = orchestrator_calls (trace s)"
      using emitsD[OF quiet_attempt_local, of env r attempts s] a
      by (simp add: orchestrator_calls_def)
    show ?thesis
    proof (cases res)
      case (Inl e)
      then show ?thesis using True a c by (subst while_local.simps) simp
    next
      case (Inr x)
      show ?thesis
      proof (cases x)
        case Break
        then show ?thesis using True a c Inr by (subst while_local.simps) simp
      next
        case Continue
        have "while_local env r attempts s = while_local env r (attempts + 1) s1"
          using True a Inr Continue by (subst while_local.simps) simp
        then show ?thesis using "1.IH"[OF True a[symmetric] Inr Continue] c by simp
      qed
    qed
  qed
qed

lemma finish_statuses_orchestrator_calls:
  "finish_statuses tr = finish_statuses (orchestrator_calls tr)"
proof (induction tr)
  case Nil
  show ?case by (simp add: finish_statuses_def orchestrator_calls_def)
next
  case (Cons ev tr)
  then show ?case by (cases ev) (simp_all add: finish_statuses_def orchestrator_calls_def)
qed

lemma artifact_uploads_orchestrator_calls:
  "artifact_uploads tr = artifact_uploads (orchestrator_calls tr)"
proof (induction tr)
  case Nil
  show ?case by (simp add: artifact_uploads_def orchestrator_calls_def)
next
  case (Cons ev tr)
  then show ?case by (cases ev) (simp_all add: artifact_uploads_def orchestrator_calls_def)
qed

lemma run_local_finish_statuses:
  "finish_statuses (trace (snd (run_local env r s))) = finish_statuses (trace s)"
  unfolding run_local_def
  by (subst (1 2) finish_statuses_orchestrator_calls) (simp add: while_local_orchestrator_calls)

lemma run_local_artifact_uploads:
  "artifact_uploads (trace (snd (run_local env r s))) = artifact_uploads (trace s)"
  unfolding run_local_def
  by (subst (1 2) artifact_uploads_orchestrator_calls) (simp add: while_local_orchestrator_calls)

lemma supervisor_flaky: "supervisor (task_result env_flaky) 0 (Suc 0) = (Inr (), 2)"
  using supervisor_fail_then_ok[of 1 1 "task_result env_flaky" 0]
  by (simp add: env_flaky_def)

lemma supervisor_ok: "supervisor (task_result env_ok) 0 0 = (Inr (), 1)"
  by (subst supervisor.simps) (simp add: env_ok_def)

lemma s0_empty:
  "invocations (trace s0) = 0" "finish_statuses (trace s0) = []"
  "artifact_uploads (trace s0) = 0" "notifications (trace s0) = []"
  "orchestrator_calls (trace s0) = []"
  by (simp_all add: s0_def invocations_def finish_statuses_def artifact_uploads_def
      notifications_def orchestrator_calls_def)

lemma run_maestro_flaky:
  "fst (run_maestro env_flaky runner_1 s0) = Inr ()"
  "invocations (trace (snd (run_maestro env_flaky runner_1 s0))) = 2"
  "finish_statuses (trace (snd (run_maestro env_flaky runner_1 s0))) = [FAILED, SUCCESS]"
proof -
  have m: "0 \<le> max_retries runner_1" "nat (max_retries runner_1) = Suc 0"
    by (simp_all add: runner_1_def runner_0_def)
  have u: "[0..<2] = [0, Suc 0]" by (simp add: upt_rec)
  have t: "task_result env_flaky 0 = Some boom" "task_result env_flaky (Suc 0) = None"
    by (simp_all add: env_flaky_def)
  from run_maestro_supervisor[OF collaborators_ok_env_flaky m(1), of s0] obtain s' where
    "run_maestro env_flaky runner_1 s0 = (Inr (), s')"
    "invocations (trace s') = 2"
    "finish_statuses (trace s') = [FAILED, SUCCESS]"
    unfolding m s0_empty supervisor_flaky by (auto simp: u t outcome_status_def)
  then show "fst (run_maestro env_flaky runner_1 s0) = Inr ()"
    "invocations (trace (snd (run_maestro env_flaky runner_1 s0))) = 2"
    "finish_statuses (trace (snd (run_maestro env_flaky runner_1 s0))) = [FAILED, SUCCESS]"
    by simp_all
qed

text \<open>
  C2, as the claim states it, fails: with \<open>max_retries = 1\<close> and a task function that
  raises once and then returns, \<open>BotRunnerMaestro.run\<close> returns normally after two
  calls of \<open>finish_task\<close>, the first with status \<open>FAILED\<close>.
\<close>

theorem finish_task_twice_counterexample:
  "fst (run_maestro env_flaky runner_1 s0) = Inr ()
   \<and> finish_statuses (trace (snd (run_maestro env_flaky runner_1 s0))) = [FAILED, SUCCESS]"
  using run_maestro_flaky by simp

text \<open>
  C2, amended. With collaborators that do not raise and \<open>max_retries \<ge> 0\<close>,
  \<open>BotRunnerMaestro.run\<close> calls \<open>finish_task\<close> once per attempt of the task function
  and in the order of the attempts, with \<open>FAILED\<close> for an attempt that raised and
  \<open>SUCCESS\<close> for one that returned. At least one attempt is made; \<open>run\<close> returns
  normally iff the last attempt returned (the last status is \<open>SUCCESS\<close>) and raises
  iff all \<open>max_retries + 1\<close> attempts raised. \<open>BotRunnerLocal.run\<close> never calls
  \<open>finish_task\<close>.
\<close>

theorem finish_task_once_per_attempt:
  assumes "collaborators_ok env" "0 \<le> max_retries r"
  shows "\<exists>res sm. run_maestro env r s = (res, sm)
     \<and> invocations (trace s) < invocations (trace sm)
     \<and> finish_statuses (trace sm)
         = finish_statuses (trace s)
           @ map (\<lambda>i. outcome_status (task_result env i))
               [invocations (trace s)..<invocations (trace sm)]
     \<and> (res = Inr ()) = (task_result env (invocations (trace sm) - 1) = None)
     \<and> (\<exists>e. res = Inl e)
         = (\<forall>j\<le>nat (max_retries r). task_result env (invocations (trace s) + j) \<noteq> None)
     \<and> finish_statuses (trace (snd (run_local env r s))) = finish_statuses (trace s)"
proof -
  define sup where
    "sup = supervisor (task_result env) (invocations (trace s)) (nat (max_retries r))"
  from run_maestro_supervisor[OF assms, of s] obtain sm where sm:
    "run_maestro env r s = (fst sup, sm)"
    "invocations (trace sm) = invocations (trace s) + snd sup"
    "finish_statuses (trace sm)
       = finish_statuses (trace s)
         @ map (\<lambda>i. outcome_status (task_result env i))
             [invocations (trace s)..<invocations (trace sm)]"
    unfolding sup_def by blast
  have "0 < snd sup" unfolding sup_def by (rule supervisor_pos)
  then have lt: "invocations (trace s) < invocations (trace sm)" using sm(2) by simp
  have ok: "(fst sup = Inr ()) = (task_result env (invocations (trace sm) - 1) = None)"
    unfolding sm(2) sup_def by (rule supervisor_result)
  have ra: "(\<exists>e. fst sup = Inl e)
      = (\<forall>j\<le>nat (max_retries r). task_result env (invocations (trace s) + j) \<noteq> None)"
    unfolding sup_def by (rule supervisor_raises)
  show ?thesis
  proof (intro exI conjI)
    show "run_maestro env r s = (fst sup, sm)" by (rule sm(1))
    show "invocations (trace s) < invocations (trace sm)" by (rule lt)
    show "finish_statuses (trace sm)
       = finish_statuses (trace s)
         @ map (\<lambda>i. outcome_status (task_result env i))
             [invocations (trace s)..<invocations (trace sm)]" by (rule sm(3))
    show "(fst sup = Inr ()) = (task_result env (invocations (trace sm) - 1) = None)"
      by (rule ok)
    show "(\<exists>e. fst sup = Inl e)
      = (\<forall>j\<le>nat (max_retries r). task_result env (invocations (trace s) + j) \<noteq> None)"
      by (rule ra)
    show "finish_statuses (trace (snd (run_local env r s))) = finish_statuses (trace s)"
      by (rule run_local_finish_statuses)
  qed
qed

theorem finish_task_once_per_attempt_witness:
  "collaborators_ok env_fails \<and> 0 \<le> max_retries runner_1
   \<and> invocations (trace s0) < invocations (trace (snd (run_maestro env_fails runner_1 s0)))
   \<and> finish_statuses (trace (snd (run_maestro env_fails runner_1 s0)))
       = map (\<lambda>i. FAILED) [0..<invocations (trace (snd (run_maestro env_fails runner_1 s0)))]
   \<and> finish_statuses (trace (snd (run_local env_fails runner_1 s0))) = []"
proof -
  have m: "0 \<le> max_retries runner_1" by (simp add: runner_1_def runner_0_def)
  have t: "task_result env_fails = (\<lambda>i. Some boom)" by (simp add: env_fails_def)
  show ?thesis
    using finish_task_once_per_attempt[OF collaborators_ok_env_fails m, of s0] m
      collaborators_ok_env_fails
    unfolding s0_empty t by (auto simp: outcome_status_def)
qed

subsection \<open>The upload of the log file to the orchestrator\<close>

lemma run_local_ok:
  "fst (run_local env_ok runner_0 s0) = Inr ()"
  "invocations (trace (snd (run_local env_ok runner_0 s0))) = 1"
proof -
  have m: "0 \<le> max_retries runner_0" "nat (max_retries runner_0) = 0"
    by (simp_all add: runner_0_def)
  from run_local_supervisor[OF collaborators_ok_env_ok m(1), of s0] obtain s' where
    "run_local env_ok runner_0 s0 = (Inr (), s')" "invocations (trace s') = 1"
    unfolding m s0_empty supervisor_ok by auto
  then show "fst (run_local env_ok runner_0 s0) = Inr ()"
    "invocations (trace (snd (run_local env_ok runner_0 s0))) = 1"
    by simp_all
qed

lemma run_maestro_ok:
  "fst (run_maestro env_ok runner_0 s0) = Inr ()"
  "invocations (trace (snd (run_maestro env_ok runner_0 s0))) = 1"
  "finish_statuses (trace (snd (run_maestro env_ok runner_0 s0))) = [SUCCESS]"
proof -
  have m: "0 \<le> max_retries runner_0" "nat (max_retries runner_0) = 0"
    by (simp_all add: runner_0_def)
  have t: "task_result env_ok 0 = None" by (simp add: env_ok_def)
  from run_maestro_supervisor[OF collaborators_ok_env_ok m(1), of s0] obtain s' where
    "run_maestro env_ok runner_0 s0 = (Inr (), s')" "invocations (trace s') = 1"
    "finish_statuses (trace s') = [SUCCESS]"
    unfolding m s0_empty supervisor_ok by (auto simp: t outcome_status_def)
  then show "fst (run_maestro env_ok runner_0 s0) = Inr ()"
    "invocations (trace (snd (run_maestro env_ok runner_0 s0))) = 1"
    "finish_statuses (trace (snd (run_maestro env_ok runner_0 s0))) = [SUCCESS]"
    by simp_all
qed

text \<open>
  C4, as the claim states it, fails for \<open>BotRunnerLocal.run\<close>: a run whose single
  attempt succeeds invokes the task function once and uploads no artifact.
\<close>

theorem local_uploads_no_artifact_counterexample:
  "invocations (trace (snd (run_local env_ok runner_0 s0))) = 1
   \<and> artifact_uploads (trace (snd (run_local env_ok runner_0 s0))) = 0"
  using run_local_ok(2) run_local_artifact_uploads[of env_ok runner_0 s0]
  by (simp add: s0_empty)

text \<open>
  C4, amended. In every invocation of \<open>BotRunnerMaestro.run\<close>, whatever the task function
  and the collaborators do, the log file is uploaded to the orchestrator exactly once per
  invocation of the task function: the run adds as many \<open>post_artifact\<close> calls to the
  trace as task invocations. \<open>BotRunnerLocal.run\<close> makes no \<open>post_artifact\<close> call.
\<close>

theorem artifact_upload_once_per_attempt:
  "artifact_uploads (trace (snd (run_maestro env r s))) + invocations (trace s)
     = artifact_uploads (trace s) + invocations (trace (snd (run_maestro env r s)))
   \<and> artifact_uploads (trace (snd (run_local env r s))) = artifact_uploads (trace s)"
  unfolding run_maestro_def
  using while_maestro_counts[of env r 0 s] run_local_artifact_uploads[of env r s]
  by simp

theorem artifact_upload_once_per_attempt_witness:
  "artifact_uploads (trace (snd (run_maestro env_flaky runner_1 s0)))
     = invocations (trace (snd (run_maestro env_flaky runner_1 s0)))
   \<and> artifact_uploads (trace (snd (run_local env_flaky runner_1 s0))) = 0"
  using artifact_upload_once_per_attempt[of env_flaky runner_1 s0]
  by (simp add: s0_empty)

subsection \<open>The two classes compared\<close>

lemma while_maestro_skip: "\<not> a \<le> max_retries r \<Longrightarrow> while_maestro env r a s = (Inr (), s)"
  by (subst while_maestro.simps) simp

lemma while_local_skip: "\<not> a \<le> max_retries r \<Longrightarrow> while_local env r a s = (Inr (), s)"
  by (subst while_local.simps) simp

text \<open>
  C5, as the claim states it, fails: on a run whose single attempt succeeds,
  \<open>BotRunnerMaestro.run\<close> calls \<open>finish_task\<close> and \<open>BotRunnerLocal.run\<close> does not,
  so the two traces differ.
\<close>

theorem run_variants_differ_counterexample:
  "finish_statuses (trace (snd (run_maestro env_ok runner_0 s0))) = [SUCCESS]
   \<and> finish_statuses (trace (snd (run_local env_ok runner_0 s0))) = []
   \<and> trace (snd (run_maestro env_ok runner_0 s0)) \<noteq> trace (snd (run_local env_ok runner_0 s0))"
proof -
  have l: "finish_statuses (trace (snd (run_local env_ok runner_0 s0))) = []"
    using run_local_finish_statuses[of env_ok runner_0 s0] by (simp add: s0_empty)
  have "finish_statuses (trace (snd (run_maestro env_ok runner_0 s0)))
      \<noteq> finish_statuses (trace (snd (run_local env_ok runner_0 s0)))"
    unfolding l run_maestro_ok(3) by simp
  then have "trace (snd (run_maestro env_ok runner_0 s0))
      \<noteq> trace (snd (run_local env_ok runner_0 s0))"
    by auto
  then show ?thesis using l run_maestro_ok(3) by simp
qed

text \<open>
  C5, amended. With collaborators that do not raise, the two \<open>run\<close> methods, given the
  same task outcomes and the same runner attributes, end with the same result (normal
  return or the same raised error), invoke the task function the same number of times and
  send the same sequence of Telegram notifications. They do not make the same sequence of
  collaborator calls: \<open>BotRunnerLocal.run\<close> makes no call to the orchestrator
  (\<open>error\<close>, \<open>finish_task\<close>, \<open>post_artifact\<close>, \<open>get_credential\<close>).
\<close>

theorem run_variants_agree:
  assumes "collaborators_ok env"
  shows "fst (run_maestro env r s) = fst (run_local env r s)
     \<and> invocations (trace (snd (run_maestro env r s)))
         = invocations (trace (snd (run_local env r s)))
     \<and> notifications (trace (snd (run_maestro env r s)))
         = notifications (trace (snd (run_local env r s)))
     \<and> orchestrator_calls (trace (snd (run_local env r s))) = orchestrator_calls (trace s)"
proof (cases "0 \<le> max_retries r")
  case True
  from run_maestro_supervisor[OF assms True, of s] obtain sm where sm:
    "run_maestro env r s
       = (fst (supervisor (task_result env) (invocations (trace s)) (nat (max_retries r))), sm)"
    "invocations (trace sm) = invocations (trace s)
       + snd (supervisor (task_result env) (invocations (trace s)) (nat (max_retries r)))"
    "notifications (trace sm)
       = notifications (trace s)
         @ concat (map (\<lambda>i. attempt_notifications r (task_result env i))
             [invocations (trace s)..<invocations (trace sm)])"
    by blast
  from run_local_supervisor[OF assms True, of s] obtain sl where sl:
    "run_local env r s
       = (fst (supervisor (task_result env) (invocations (trace s)) (nat (max_retries r))), sl)"
    "invocations (trace sl) = invocations (trace s)
       + snd (supervisor (task_result env) (invocations (trace s)) (nat (max_retries r)))"
    "notifications (trace sl)
       = notifications (trace s)
         @ concat (map (\<lambda>i. attempt_notifications r (task_result env i))
             [invocations (trace s)..<invocations (trace sl)])"
    by blast
  have "invocations (trace sm) = invocations (trace sl)" using sm(2) sl(2) by simp
  then show ?thesis
    using sm sl while_local_orchestrator_calls[of env r 0 s] by (simp add: run_local_def)
next
  case False
  then show ?thesis
    by (simp add: run_maestro_def run_local_def while_maestro_skip while_local_skip)
qed

theorem run_variants_agree_witness:
  "collaborators_ok env_flaky
   \<and> fst (run_maestro env_flaky runner_1 s0) = fst (run_local env_flaky runner_1 s0)
   \<and> invocations (trace (snd (run_maestro env_flaky runner_1 s0)))
       = invocations (trace (snd (run_local env_flaky runner_1 s0)))
   \<and> notifications (trace (snd (run_maestro env_flaky runner_1 s0)))
       = notifications (trace (snd (run_local env_flaky runner_1 s0)))
   \<and> orchestrator_calls (trace (snd (run_local env_flaky runner_1 s0))) = []"
  using run_variants_agree[OF collaborators_ok_env_flaky, of runner_1 s0]
    collaborators_ok_env_flaky
  by (simp add: s0_empty)

subsection \<open>The constructors\<close>


















subsection \<open>The start time of an attempt\<close>






































subsection \<open>Errors of the reporting calls\<close>


























end
